theory Spec2Isabelle
  imports Main "HOL-Library.Word" "HOL-Library.Signed_Division" "HOL-Library.Monad_Syntax"
begin

section \<open>fastlimiter: an in-memory rate limiter with escalating policies\<close>

text \<open>
  A shallow embedding of \<^verbatim>\<open>fastlimiter.go\<close>. The limiter is a pair of Go maps guarded by
  one lock; every method is modelled as a function from the limiter before the call to the
  limiter after it, for one caller at a time. \<^verbatim>\<open>time.Now()\<close> is the extra argument
  \<open>now\<close>: one method call reads the clock several times and the model gives all of them
  the same instant.
\<close>

subsection \<open>Data\<close>

text \<open>
  \<^verbatim>\<open>int32\<close> is a 32-bit word read through \<open>sint\<close>; \<^verbatim>\<open>time.Duration\<close> is Go's
  \<^verbatim>\<open>int64\<close> count of nanoseconds; a \<^verbatim>\<open>time.Time\<close> is the number of nanoseconds since
  the zero \<^verbatim>\<open>time.Time\<close>, so that the zero instant is \<open>0\<close>.
\<close>

type_synonym int32 = "32 word"
type_synonym duration = "64 word"
type_synonym time = int

definition Millisecond :: duration where
  "Millisecond = 1000000"

definition Second :: duration where
  "Second = 1000 * Millisecond"

definition Minute :: duration where
  "Minute = 60 * Second"

definition Before :: "time \<Rightarrow> time \<Rightarrow> bool" where
  "Before t u \<longleftrightarrow> t < u"

definition Add :: "time \<Rightarrow> duration \<Rightarrow> time" where
  "Add t d = t + sint d"

text \<open>The fields of the four structs; a suffix tells apart the fields that share a name.\<close>

record Options =
  Prefix :: string
  Max_opt :: int32
  CleanDuration :: duration
  Duration_opt :: duration

record statusCacheItem =
  Index :: int32
  Expire_status :: time

record limiterCacheItem =
  Total :: int32
  Remaining :: int32
  Duration :: duration
  Expire :: time

text \<open>
  \<^verbatim>\<open>FastLimiter\<close>: the two maps and the options. The lock and the ticker carry no data
  (\<^verbatim>\<open>cleanCache\<close> only drains the ticker's channel).
\<close>

record FastLimiter =
  status :: "string \<rightharpoonup> statusCacheItem"
  store :: "string \<rightharpoonup> limiterCacheItem"
  options :: Options

record Result =
  Total_res :: int
  Remaining_res :: int
  Duration_res :: duration
  Reset :: time

text \<open>The value of a \<^verbatim>\<open>Result\<close> variable that was never assigned.\<close>

definition zero_Result :: Result where
  "zero_Result = \<lparr>Total_res = 0, Remaining_res = 0, Duration_res = 0, Reset = 0\<rparr>"

subsection \<open>Construction\<close>

text \<open>
  \<^verbatim>\<open>New\<close> fills in the defaults (one minute, the prefix \<^verbatim>\<open>limit:\<close>, 1000) and makes the
  two maps. The ticker it starts, with period \<^verbatim>\<open>CleanDuration\<close> or five seconds, changes
  nothing in the limiter.
\<close>

definition New :: "Options \<Rightarrow> FastLimiter" where
  "New opts =
     (let o1 = (if Duration_opt opts = 0 then opts\<lparr>Duration_opt := Minute\<rparr> else opts);
          o2 = (if Prefix o1 = [] then o1\<lparr>Prefix := ''limit:''\<rparr> else o1);
          o3 = (if Max_opt o2 = 0 then o2\<lparr>Max_opt := 1000\<rparr> else o2)
      in \<lparr>status = Map.empty, store = Map.empty, options = o3\<rparr>)"

subsection \<open>The map accessors\<close>

definition getMapValue :: "FastLimiter \<Rightarrow> string \<Rightarrow> limiterCacheItem option" where
  "getMapValue l key = store l key"

definition setMapValue :: "FastLimiter \<Rightarrow> string \<Rightarrow> limiterCacheItem \<Rightarrow> FastLimiter" where
  "setMapValue l key res = l\<lparr>store := (store l)(key \<mapsto> res)\<rparr>"

definition getStatusMapValue :: "FastLimiter \<Rightarrow> string \<Rightarrow> statusCacheItem option" where
  "getStatusMapValue l key = status l key"

definition setStatusMapValue :: "FastLimiter \<Rightarrow> string \<Rightarrow> statusCacheItem \<Rightarrow> FastLimiter" where
  "setStatusMapValue l key res = l\<lparr>status := (status l)(key \<mapsto> res)\<rparr>"

definition statusKey_of :: "string \<Rightarrow> string" where
  "statusKey_of key = ''{'' @ key @ ''}:S''"

subsection \<open>Starting a window\<close>

text \<open>
  \<^verbatim>\<open>args[i]\<close> with an \<^verbatim>\<open>int32\<close> index: Go panics when the index is negative or not
  below the length. \<open>None\<close> is that panic, here and in every function below.
\<close>

definition index_args :: "int32 list \<Rightarrow> int32 \<Rightarrow> int32 option" where
  "index_args args i =
     (if 0 \<le> sint i \<and> nat (sint i) < length args then Some (args ! nat (sint i)) else None)"

text \<open>\<^verbatim>\<open>time.Duration(duration) * time.Millisecond\<close>\<close>

definition millis :: "int32 \<Rightarrow> duration" where
  "millis d = scast d * Millisecond"

text \<open>\<^verbatim>\<open>policyCount := int32(len(args) / 2)\<close>\<close>

definition policyCount_of :: "int32 list \<Rightarrow> int32" where
  "policyCount_of args = word_of_nat (length args div 2)"

text \<open>The entry that the last statements of \<^verbatim>\<open>initCacheItem\<close> build.\<close>

definition newCacheItem :: "time \<Rightarrow> int32 \<Rightarrow> int32 \<Rightarrow> limiterCacheItem" where
  "newCacheItem now tot d =
     \<lparr>Total = tot, Remaining = tot - 1, Duration = millis d, Expire = Add now (millis d)\<rparr>"

text \<open>
  \<^verbatim>\<open>initCacheItem\<close>. With more than one policy and a status entry present, the entry's
  \<^verbatim>\<open>Index\<close> is first changed in place (through the pointer the map holds), to 1 when it
  has reached the number of policies and to one more otherwise; the policy at the new
  index gives the window, and a new status entry with that index replaces the old one.
  With no status entry, \<^verbatim>\<open>statusItem\<close> stays \<^verbatim>\<open>nil\<close> and the first policy is used.
\<close>

definition initCacheItem ::
  "FastLimiter \<Rightarrow> time \<Rightarrow> string \<Rightarrow> int32 list \<Rightarrow> (limiterCacheItem \<times> FastLimiter) option" where
  "initCacheItem l now key args =
     (let policyCount = policyCount_of args;
          statusKey = statusKey_of key
      in do {
        tot \<leftarrow> index_args args 0;
        d \<leftarrow> index_args args 1;
        if sint policyCount > 1 then
          (case getStatusMapValue l statusKey of
             None \<Rightarrow>
               (let l1 = setStatusMapValue l statusKey
                           \<lparr>Index = 1, Expire_status = Add now (millis d * 2)\<rparr>;
                    res = newCacheItem now tot d
                in Some (res, setMapValue l1 key res))
           | Some statusItem \<Rightarrow>
               (let index = Index statusItem;
                    statusItem1 = (if sint index \<ge> sint policyCount
                                   then statusItem\<lparr>Index := 1\<rparr>
                                   else statusItem\<lparr>Index := index + 1\<rparr>);
                    l1 = setStatusMapValue l statusKey statusItem1
                in do {
                  tot1 \<leftarrow> index_args args (Index statusItem1 * 2 - 2);
                  d1 \<leftarrow> index_args args (Index statusItem1 * 2 - 1);
                  let l2 = setStatusMapValue l1 statusKey
                             \<lparr>Index = Index statusItem1,
                              Expire_status = Add now (millis d1 * 2)\<rparr>;
                      res = newCacheItem now tot1 d1
                  in Some (res, setMapValue l2 key res)
                }))
        else
          (let res = newCacheItem now tot d in Some (res, setMapValue l key res))
      })"

subsection \<open>Deciding a request\<close>

text \<open>
  \<^verbatim>\<open>getLimit\<close>: an entry whose \<^verbatim>\<open>Expire\<close> is before now, or no entry, starts a window;
  otherwise the entry's \<^verbatim>\<open>Remaining\<close> is decremented in place unless it is \<open>-1\<close>.
\<close>

definition getLimit ::
  "FastLimiter \<Rightarrow> time \<Rightarrow> string \<Rightarrow> int32 list \<Rightarrow> (limiterCacheItem \<times> FastLimiter) option" where
  "getLimit l now key args =
     (case getMapValue l key of
        Some res \<Rightarrow>
          if Before (Expire res) now then initCacheItem l now key args
          else if Remaining res = - 1 then Some (res, l)
          else (let res1 = res\<lparr>Remaining := Remaining res - 1\<rparr>
                in Some (res1, l\<lparr>store := (store l)(key \<mapsto> res1)\<rparr>))
      | None \<Rightarrow> initCacheItem l now key args)"

text \<open>A Go \<^verbatim>\<open>error\<close> is its message; \<open>None\<close> is \<^verbatim>\<open>nil\<close>.\<close>

type_synonym error = "string option"

text \<open>The \<^verbatim>\<open>Result\<close> that \<^verbatim>\<open>getResult\<close> builds from the entry it got.\<close>

definition toResult :: "limiterCacheItem \<Rightarrow> Result" where
  "toResult res =
     \<lparr>Total_res = sint (Total res), Remaining_res = sint (Remaining res),
      Duration_res = Duration res, Reset = Expire res\<rparr>"

definition getResult ::
  "FastLimiter \<Rightarrow> time \<Rightarrow> string \<Rightarrow> int32 list \<Rightarrow> ((Result \<times> error) \<times> FastLimiter) option" where
  "getResult l now key args =
     do {
       (res, l1) \<leftarrow> getLimit l now key args;
       Some ((toResult res, None), l1)
     }"

text \<open>
  \<^verbatim>\<open>Get\<close>. The default policy converts \<^verbatim>\<open>Duration / time.Millisecond\<close>, an
  \<^verbatim>\<open>int64\<close> division that truncates towards zero, to \<^verbatim>\<open>int32\<close>.
\<close>

definition Get ::
  "FastLimiter \<Rightarrow> time \<Rightarrow> string \<Rightarrow> int32 list \<Rightarrow> ((Result \<times> error) \<times> FastLimiter) option" where
  "Get l now ident policy =
     (let key = Prefix (options l) @ ident;
          len = length policy
      in if len mod 2 = 1
         then Some ((zero_Result, Some ''fastlimiter: must be paired values''), l)
         else getResult l now key
                (if len = 0
                 then [Max_opt (options l),
                       word_of_int (sint (Duration_opt (options l)) sdiv sint Millisecond)]
                 else policy))"

subsection \<open>Removing, counting, cleaning\<close>

definition Remove :: "FastLimiter \<Rightarrow> string \<Rightarrow> FastLimiter" where
  "Remove l ident =
     (let key = Prefix (options l) @ ident;
          statusKey = statusKey_of key
      in l\<lparr>store := (store l)(key := None), status := (status l)(statusKey := None)\<rparr>)"

definition Count :: "FastLimiter \<Rightarrow> int" where
  "Count l = int (card (dom (store l)))"

text \<open>
  \<^verbatim>\<open>Clean\<close> ranges over the store. Go fixes no order for that, so the order is the list
  \<open>keys\<close>, an enumeration of the store's keys when the loop starts; a key whose entry was
  deleted before the loop reached it is not produced. The loop hands the \<^emph>\<open>store key\<close>
  to \<^verbatim>\<open>Remove\<close>, which takes an identifier and puts the prefix in front of it again.
\<close>

fun Clean_loop :: "FastLimiter \<Rightarrow> time \<Rightarrow> string list \<Rightarrow> FastLimiter" where
  "Clean_loop l now [] = l"
| "Clean_loop l now (key # keys) =
     (case store l key of
        None \<Rightarrow> Clean_loop l now keys
      | Some v \<Rightarrow>
          if Before (Expire v) now then Clean_loop (Remove l key) now keys
          else Clean_loop l now keys)"

definition Clean :: "FastLimiter \<Rightarrow> time \<Rightarrow> string list \<Rightarrow> FastLimiter" where
  "Clean l now keys = Clean_loop l now keys"

subsection \<open>Sequences of calls\<close>

text \<open>One \<^verbatim>\<open>Get\<close> after the other, each at its own instant, collecting what they return.\<close>

fun Gets ::
  "FastLimiter \<Rightarrow> (time \<times> string \<times> int32 list) list \<Rightarrow> ((Result \<times> error) list \<times> FastLimiter) option" where
  "Gets l [] = Some ([], l)"
| "Gets l ((now, ident, policy) # calls) =
     (case Get l now ident policy of
        None \<Rightarrow> None
      | Some (r, l1) \<Rightarrow>
          (case Gets l1 calls of
             None \<Rightarrow> None
           | Some (rs, l2) \<Rightarrow> Some (r # rs, l2)))"

subsection \<open>A limiter to run\<close>

text \<open>\<^verbatim>\<open>fastlimiter.New(&fastlimiter.Options{})\<close>, the limiter of the repository's tests.\<close>

definition default_Options :: Options where
  "default_Options = \<lparr>Prefix = [], Max_opt = 0, CleanDuration = 0, Duration_opt = 0\<rparr>"

text \<open>
  The limiter after \<^verbatim>\<open>Get("a", 10, 100)\<close> at instant 0: one entry, which expires at
  100 ms.
\<close>

definition one_window_limiter :: FastLimiter where
  "one_window_limiter =
     (New default_Options)
       \<lparr>store := [''limit:a'' \<mapsto>
                   \<lparr>Total = 10, Remaining = 9, Duration = 100000000, Expire = 100000000\<rparr>]\<rparr>"

text \<open>
  The limiter after \<^verbatim>\<open>Get("a", 3, 100, 2, 200)\<close> at instant 0: a window of the first
  policy, which ends at 100 ms, and a status entry with index 1, which expires at 200 ms.
\<close>

definition first_policy_limiter :: FastLimiter where
  "first_policy_limiter =
     (New default_Options)
       \<lparr>status := [''{limit:a}:S'' \<mapsto> \<lparr>Index = 1, Expire_status = 200000000\<rparr>],
        store := [''limit:a'' \<mapsto>
                   \<lparr>Total = 3, Remaining = 2, Duration = 100000000, Expire = 100000000\<rparr>]\<rparr>"

text \<open>
  The limiter after \<^verbatim>\<open>Get("a", 3, 100, 2, 200)\<close> at instant 0 and again at 150 ms: the
  second call started a window of the second policy, which ends at 350 ms, and left a
  status entry with index 2, which expires at 550 ms.
\<close>

definition two_windows_limiter :: FastLimiter where
  "two_windows_limiter =
     (New default_Options)
       \<lparr>status := [''{limit:a}:S'' \<mapsto> \<lparr>Index = 2, Expire_status = 550000000\<rparr>],
        store := [''limit:a'' \<mapsto>
                   \<lparr>Total = 2, Remaining = 1, Duration = 200000000, Expire = 350000000\<rparr>]\<rparr>"

subsection \<open>Conditions on a limiter\<close>

text \<open>
  The condition under which \<^verbatim>\<open>getLimit\<close> starts a window for a key: the store has no
  entry for it, or the entry's \<^verbatim>\<open>Expire\<close> is before now.
\<close>

definition window_over :: "FastLimiter \<Rightarrow> time \<Rightarrow> string \<Rightarrow> bool" where
  "window_over l now key =
     (case getMapValue l key of None \<Rightarrow> True | Some res \<Rightarrow> Before (Expire res) now)"

text \<open>
  The status entry of a key, when there is one, holds an index that is not negative.
  \<^verbatim>\<open>initCacheItem\<close> only ever stores indices from 1 upwards.
\<close>

definition status_index_ok :: "FastLimiter \<Rightarrow> string \<Rightarrow> bool" where
  "status_index_ok l statusKey =
     (case getStatusMapValue l statusKey of
        None \<Rightarrow> True
      | Some statusItem \<Rightarrow> 0 \<le> sint (Index statusItem))"

text \<open>
  What a limiter holds for an identifier: its entry in the store and its status entry,
  under the keys that \<^verbatim>\<open>Get\<close> and \<^verbatim>\<open>Remove\<close> compute for it.
\<close>

definition identifier_state ::
  "FastLimiter \<Rightarrow> string \<Rightarrow> limiterCacheItem option \<times> statusCacheItem option" where
  "identifier_state l ident =
     (let key = Prefix (options l) @ ident
      in (getMapValue l key, getStatusMapValue l (statusKey_of key)))"

section \<open>Properties\<close>

lemmas limiter_defs =
  Get_def getResult_def getLimit_def initCacheItem_def toResult_def
  getMapValue_def setMapValue_def getStatusMapValue_def setStatusMapValue_def
  statusKey_of_def index_args_def policyCount_of_def newCacheItem_def millis_def
  Add_def Before_def Millisecond_def Second_def Minute_def zero_Result_def Let_def

lemma New_default:
  "New default_Options =
     \<lparr>status = Map.empty, store = Map.empty,
      options = \<lparr>Prefix = ''limit:'', Max_opt = 1000, CleanDuration = 0,
                 Duration_opt = 60000000000\<rparr>\<rparr>"
  by (simp add: New_def default_Options_def Minute_def Second_def Millisecond_def)

subsection \<open>Signed 32-bit arithmetic that does not wrap\<close>

lemma sint_of_nat_int32:
  "n < 2 ^ 31 \<Longrightarrow> sint (word_of_nat n :: int32) = int n"
  by (simp add: signed_of_nat signed_take_bit_int_eq_self)

lemma sint_add1_int32:
  fixes x :: int32
  assumes "sint x < 2 ^ 31 - 1"
  shows "sint (x + 1) = sint x + 1"
proof -
  have "- (2 ^ 31) \<le> sint x" using sint_ge [of x] by simp
  with assms show ?thesis
    by (simp add: sint_word_ariths signed_take_bit_int_eq_self)
qed

lemma sint_sub1_int32:
  fixes x :: int32
  assumes "- (2 ^ 31) < sint x"
  shows "sint (x - 1) = sint x - 1"
proof -
  have "sint x < 2 ^ 31" using sint_lt [of x] by simp
  with assms show ?thesis
    by (simp add: sint_word_ariths signed_take_bit_int_eq_self)
qed

lemma sint_double_int32:
  fixes x :: int32
  assumes "1 \<le> sint x" "sint x < 2 ^ 30"
  shows "sint (x * 2 - 2) = 2 * sint x - 2" "sint (x * 2 - 1) = 2 * sint x - 1"
proof -
  have a: "sint (x * 2) = 2 * sint x"
    using assms by (simp add: sint_word_ariths signed_take_bit_int_eq_self)
  show "sint (x * 2 - 2) = 2 * sint x - 2"
    using assms a by (simp add: sint_word_ariths signed_take_bit_int_eq_self)
  show "sint (x * 2 - 1) = 2 * sint x - 1"
    using assms a by (simp add: sint_word_ariths signed_take_bit_int_eq_self)
qed

lemma minus1_iff_int32: "(x :: int32) = - 1 \<longleftrightarrow> sint x = - 1"
  by (metis sint_n1 signed_word_eqI)

subsection \<open>The branches of \<^verbatim>\<open>initCacheItem\<close>\<close>

lemma policyCount_multi_length:
  "1 < sint (policyCount_of args) \<Longrightarrow> 4 \<le> length args"
proof (rule ccontr)
  assume a: "1 < sint (policyCount_of args)" and "\<not> 4 \<le> length args"
  then have "length args div 2 = 0 \<or> length args div 2 = 1" by linarith
  then have "sint (policyCount_of args) \<le> 1"
    by (auto simp: policyCount_of_def)
  with a show False by simp
qed

lemma index_args_0: "2 \<le> length args \<Longrightarrow> index_args args 0 = Some (args ! 0)"
  by (cases args) (simp_all add: index_args_def)

lemma index_args_1: "2 \<le> length args \<Longrightarrow> index_args args 1 = Some (args ! 1)"
  by (simp add: index_args_def)

lemma initCacheItem_single:
  assumes "\<not> 1 < sint (policyCount_of args)" "2 \<le> length args"
  shows "initCacheItem l now key args =
    Some (newCacheItem now (args ! 0) (args ! 1),
          setMapValue l key (newCacheItem now (args ! 0) (args ! 1)))"
  using assms by (simp add: initCacheItem_def Let_def index_args_0 index_args_1)

lemma initCacheItem_first:
  assumes "1 < sint (policyCount_of args)" "status l (statusKey_of key) = None"
  shows "initCacheItem l now key args =
    Some (newCacheItem now (args ! 0) (args ! 1),
          setMapValue
            (setStatusMapValue l (statusKey_of key)
               \<lparr>Index = 1, Expire_status = Add now (millis (args ! 1) * 2)\<rparr>)
            key (newCacheItem now (args ! 0) (args ! 1)))"
proof -
  have "2 \<le> length args" using policyCount_multi_length [OF assms(1)] by simp
  then show ?thesis
    using assms
    by (simp add: initCacheItem_def Let_def index_args_0 index_args_1 getStatusMapValue_def)
qed

lemma setStatusMapValue_twice:
  "setStatusMapValue (setStatusMapValue l k a) k b = setStatusMapValue l k b"
  by (simp add: setStatusMapValue_def)

lemma initCacheItem_wrap:
  assumes "1 < sint (policyCount_of args)" "status l (statusKey_of key) = Some si"
    "sint (policyCount_of args) \<le> sint (Index si)"
  shows "initCacheItem l now key args =
    Some (newCacheItem now (args ! 0) (args ! 1),
          setMapValue
            (setStatusMapValue l (statusKey_of key)
               \<lparr>Index = 1, Expire_status = Add now (millis (args ! 1) * 2)\<rparr>)
            key (newCacheItem now (args ! 0) (args ! 1)))"
proof -
  have "2 \<le> length args" using policyCount_multi_length [OF assms(1)] by simp
  then show ?thesis
    using assms
    by (simp add: initCacheItem_def Let_def index_args_0 index_args_1 getStatusMapValue_def
        setStatusMapValue_twice)
qed

lemma initCacheItem_advance:
  assumes "1 < sint (policyCount_of args)" "status l (statusKey_of key) = Some si"
    "sint (Index si) < sint (policyCount_of args)" "0 \<le> sint (Index si)"
    "length args < 2 ^ 31"
  shows "initCacheItem l now key args =
    Some (newCacheItem now (args ! (2 * nat (sint (Index si)))) (args ! (2 * nat (sint (Index si)) + 1)),
          setMapValue
            (setStatusMapValue l (statusKey_of key)
               \<lparr>Index = Index si + 1,
                Expire_status = Add now (millis (args ! (2 * nat (sint (Index si)) + 1)) * 2)\<rparr>)
            key (newCacheItem now (args ! (2 * nat (sint (Index si)))) (args ! (2 * nat (sint (Index si)) + 1))))"
proof -
  let ?i = "Index si"
  have len4: "4 \<le> length args" by (rule policyCount_multi_length [OF assms(1)])
  have "length args div 2 < 2 ^ 31" using assms(5) by simp
  then have pc: "sint (policyCount_of args) = int (length args div 2)"
    unfolding policyCount_of_def by (rule sint_of_nat_int32)
  have small: "sint ?i < 2 ^ 30 - 1" using assms(3,5) pc by simp
  define j where "j = ?i + 1"
  have s1: "sint j = sint ?i + 1"
    unfolding j_def using small by (intro sint_add1_int32) simp
  have d2: "sint (j * 2 - 2) = 2 * sint ?i" "sint (j * 2 - 1) = 2 * sint ?i + 1"
    using sint_double_int32 [of j] s1 assms(4) small by simp_all
  have n2: "nat (2 * sint ?i) = 2 * nat (sint ?i)" "nat (2 * sint ?i + 1) = 2 * nat (sint ?i) + 1"
    using assms(4) by simp_all
  have inr: "2 * nat (sint ?i) + 1 < length args"
    using assms(3,4) pc by simp
  have ia: "index_args args (j * 2 - 2) = Some (args ! (2 * nat (sint ?i)))"
    unfolding index_args_def d2 n2 using inr assms(4) by simp
  have ib: "index_args args (j * 2 - 1) = Some (args ! (2 * nat (sint ?i) + 1))"
    unfolding index_args_def d2 n2 using inr assms(4) by simp
  have len2: "2 \<le> length args" using len4 by simp
  have fold: "Index si + 1 = j" by (simp add: j_def)
  show ?thesis
    using assms(1,2,3) len2
    by (simp add: initCacheItem_def Let_def index_args_0 index_args_1 getStatusMapValue_def
        setStatusMapValue_twice fold ia ib)
qed

text \<open>
  \<^verbatim>\<open>initCacheItem\<close> returns, with a new entry in the store, whenever the policy list
  has at least one pair, fewer than \<open>2\<^sup>3\<^sup>1\<close> values, and the status index is not negative.
\<close>

lemma initCacheItem_returns:
  assumes len: "2 \<le> length args" "length args < 2 ^ 31"
    and ok: "status_index_ok l (statusKey_of key)"
  shows "\<exists>tot d st. initCacheItem l now key args =
           Some (newCacheItem now tot d,
                 l\<lparr>status := st, store := (store l)(key \<mapsto> newCacheItem now tot d)\<rparr>)"
proof (cases "1 < sint (policyCount_of args)")
  case False
  from initCacheItem_single [OF False len(1)]
  have "initCacheItem l now key args =
      Some (newCacheItem now (args ! 0) (args ! 1),
            l\<lparr>status := status l, store := (store l)(key \<mapsto> newCacheItem now (args ! 0) (args ! 1))\<rparr>)"
    by (simp add: setMapValue_def)
  then show ?thesis by blast
next
  case multi: True
  show ?thesis
  proof (cases "status l (statusKey_of key)")
    case None
    from initCacheItem_first [OF multi None]
    show ?thesis by (simp add: setMapValue_def setStatusMapValue_def) blast
  next
    case (Some si)
    show ?thesis
    proof (cases "sint (policyCount_of args) \<le> sint (Index si)")
      case True
      from initCacheItem_wrap [OF multi Some True]
      show ?thesis by (simp add: setMapValue_def setStatusMapValue_def) blast
    next
      case False
      then have lt: "sint (Index si) < sint (policyCount_of args)" by simp
      have nn: "0 \<le> sint (Index si)"
        using ok Some by (simp add: status_index_ok_def getStatusMapValue_def)
      from initCacheItem_advance [OF multi Some lt nn len(2)]
      show ?thesis by (simp add: setMapValue_def setStatusMapValue_def) blast
    qed
  qed
qed

lemma even_length_ge2: "even (length xs) \<Longrightarrow> xs \<noteq> [] \<Longrightarrow> 2 \<le> length xs"
  by (cases xs; cases "tl xs") auto

subsection \<open>The branches of \<^verbatim>\<open>Get\<close> and \<^verbatim>\<open>getLimit\<close>\<close>

lemma Get_even_nonempty:
  "even (length policy) \<Longrightarrow> policy \<noteq> [] \<Longrightarrow>
   Get l now ident policy = getResult l now (Prefix (options l) @ ident) policy"
  by (simp add: Get_def Let_def)

lemma getLimit_window_over:
  "window_over l now key \<Longrightarrow> getLimit l now key args = initCacheItem l now key args"
  by (auto simp: window_over_def getLimit_def split: option.splits)

lemma getLimit_live:
  assumes "store l key = Some e" "\<not> Before (Expire e) now"
  shows "getLimit l now key args =
    Some (if Remaining e = - 1 then e else e\<lparr>Remaining := Remaining e - 1\<rparr>,
          l\<lparr>store := (store l)(key \<mapsto> if Remaining e = - 1 then e else e\<lparr>Remaining := Remaining e - 1\<rparr>)\<rparr>)"
  using assms by (simp add: getLimit_def getMapValue_def Let_def map_upd_triv)

subsection \<open>Odd-length policies\<close>

text \<open>
  C6. For every identifier and every policy list of odd length, \<^verbatim>\<open>Get\<close> returns the
  error "must be paired values" together with the zero \<^verbatim>\<open>Result\<close>, and the limiter after
  the call is the limiter before it: neither the store nor the status map has changed.
\<close>

theorem Get_odd_length_error:
  "odd (length policy) \<Longrightarrow>
   Get l now ident policy =
     Some ((zero_Result, Some ''fastlimiter: must be paired values''), l)"
  by (simp add: Get_def Let_def odd_iff_mod_2_eq_one)

theorem Get_odd_length_error_witness:
  "odd (length [10, 1000, 1 :: int32]) \<and>
   Get (New default_Options) 0 ''a'' [10, 1000, 1] =
     Some ((zero_Result, Some ''fastlimiter: must be paired values''), New default_Options)"
  using Get_odd_length_error [of "[10, 1000, 1]" "New default_Options" 0 "''a''"] by simp

text \<open>
  C9. Whenever \<^verbatim>\<open>Get\<close> returns an error, the \<^verbatim>\<open>Result\<close> beside it is the zero
  \<^verbatim>\<open>Result\<close>: total, remaining and duration are 0 and the reset instant is the zero
  instant.
\<close>

theorem Get_error_zero_Result:
  "Get l now ident policy = Some ((r, Some e), l1) \<Longrightarrow>
   r = zero_Result \<and> Total_res r = 0 \<and> Remaining_res r = 0 \<and> Duration_res r = 0 \<and> Reset r = 0"
  by (auto simp: Get_def getResult_def Let_def zero_Result_def
           split: if_splits Option.bind_splits)

theorem Get_error_zero_Result_witness:
  "Get (New default_Options) 5 ''a'' [7] =
     Some ((zero_Result, Some ''fastlimiter: must be paired values''), New default_Options) \<and>
   Total_res zero_Result = 0 \<and> Remaining_res zero_Result = 0 \<and>
   Duration_res zero_Result = 0 \<and> Reset zero_Result = 0"
proof -
  have h: "Get (New default_Options) 5 ''a'' [7] =
     Some ((zero_Result, Some ''fastlimiter: must be paired values''), New default_Options)"
    by (simp add: Get_def)
  from Get_error_zero_Result [OF h] h show ?thesis by simp
qed

subsection \<open>Escalation at the last policy\<close>

text \<open>The limiter \<open>two_windows_limiter\<close> is what two calls leave behind.\<close>

lemma two_windows_reached:
  "Gets (New default_Options) [(0, ''a'', [3, 100, 2, 200]), (150000000, ''a'', [3, 100, 2, 200])] =
     Some ([(\<lparr>Total_res = 3, Remaining_res = 2, Duration_res = 100000000, Reset = 100000000\<rparr>, None),
            (\<lparr>Total_res = 2, Remaining_res = 1, Duration_res = 200000000, Reset = 350000000\<rparr>, None)],
           two_windows_limiter)"
  by (simp add: two_windows_limiter_def New_default limiter_defs)

text \<open>
  C1 as stated fails. In \<open>two_windows_limiter\<close> the status entry records index 2, the
  last of the two policies, and at 400 ms it has not expired (550 ms) while the window has
  (350 ms). The window that \<^verbatim>\<open>Get\<close> starts there is one of the first policy (3 per
  100 ms), not one of the last (2 per 200 ms).
\<close>

theorem last_tier_not_pinned_counterexample:
  "status two_windows_limiter (statusKey_of ''limit:a'') = Some \<lparr>Index = 2, Expire_status = 550000000\<rparr> \<and>
   \<not> Before 550000000 400000000 \<and>
   policyCount_of [3, 100, 2, 200] = 2 \<and>
   window_over two_windows_limiter 400000000 ''limit:a'' \<and>
   map_option fst (Get two_windows_limiter 400000000 ''a'' [3, 100, 2, 200]) =
     Some (\<lparr>Total_res = 3, Remaining_res = 2, Duration_res = 100000000, Reset = 500000000\<rparr>, None) \<and>
   map_option fst (Get two_windows_limiter 400000000 ''a'' [3, 100, 2, 200]) \<noteq>
     Some (\<lparr>Total_res = 2, Remaining_res = 1, Duration_res = 200000000, Reset = 600000000\<rparr>, None)"
  by (simp add: two_windows_limiter_def New_default limiter_defs window_over_def)

text \<open>
  C1, amended. For every identifier under a policy list with more than one policy whose
  unexpired status entry records the index of the last policy, the next window that
  \<^verbatim>\<open>Get\<close> starts is one of the first policy: the index wraps around to 1, the new
  status entry records 1 and expires two windows of the first policy from now.
\<close>

theorem last_tier_wraps_to_first:
  assumes multi: "1 < sint (policyCount_of policy)"
    and paired: "even (length policy)"
    and entry: "status l (statusKey_of (Prefix (options l) @ ident)) = Some si"
    and unexpired: "\<not> Before (Expire_status si) now"
    and last: "Index si = policyCount_of policy"
    and over: "window_over l now (Prefix (options l) @ ident)"
  shows "Get l now ident policy =
     Some ((toResult (newCacheItem now (policy ! 0) (policy ! 1)), None),
           l\<lparr>status := (status l)(statusKey_of (Prefix (options l) @ ident) \<mapsto>
                         \<lparr>Index = 1, Expire_status = Add now (millis (policy ! 1) * 2)\<rparr>),
             store := (store l)(Prefix (options l) @ ident \<mapsto>
                         newCacheItem now (policy ! 0) (policy ! 1))\<rparr>)"
proof -
  have ne: "policy \<noteq> []" using policyCount_multi_length [OF multi] by auto
  have "sint (policyCount_of policy) \<le> sint (Index si)" using last by simp
  from initCacheItem_wrap [OF multi entry this]
  show ?thesis
    by (simp add: Get_even_nonempty [OF paired ne] getResult_def getLimit_window_over [OF over]
        setMapValue_def setStatusMapValue_def)
qed

theorem last_tier_wraps_to_first_witness:
  "1 < sint (policyCount_of [3, 100, 2, 200]) \<and> even (length [3, 100, 2, 200 :: int32]) \<and>
   status two_windows_limiter (statusKey_of (Prefix (options two_windows_limiter) @ ''a'')) =
     Some \<lparr>Index = 2, Expire_status = 550000000\<rparr> \<and>
   \<not> Before (Expire_status \<lparr>Index = 2, Expire_status = 550000000\<rparr>) 400000000 \<and>
   Index \<lparr>Index = 2, Expire_status = 550000000\<rparr> = policyCount_of [3, 100, 2, 200] \<and>
   window_over two_windows_limiter 400000000 (Prefix (options two_windows_limiter) @ ''a'') \<and>
   map_option fst (Get two_windows_limiter 400000000 ''a'' [3, 100, 2, 200]) =
     Some (\<lparr>Total_res = 3, Remaining_res = 2, Duration_res = 100000000, Reset = 500000000\<rparr>, None)"
proof -
  have a: "1 < sint (policyCount_of [3, 100, 2, 200])" by (simp add: policyCount_of_def)
  have b: "even (length [3, 100, 2, 200 :: int32])" by simp
  have c: "status two_windows_limiter (statusKey_of (Prefix (options two_windows_limiter) @ ''a'')) =
     Some \<lparr>Index = 2, Expire_status = 550000000\<rparr>"
    by (simp add: two_windows_limiter_def New_default statusKey_of_def)
  have d: "\<not> Before (Expire_status \<lparr>Index = 2, Expire_status = 550000000\<rparr>) 400000000"
    by (simp add: Before_def)
  have e: "Index \<lparr>Index = 2, Expire_status = 550000000\<rparr> = policyCount_of [3, 100, 2, 200]"
    by (simp add: policyCount_of_def)
  have f: "window_over two_windows_limiter 400000000 (Prefix (options two_windows_limiter) @ ''a'')"
    by (simp add: two_windows_limiter_def New_default window_over_def getMapValue_def Before_def)
  from last_tier_wraps_to_first [OF a b c d e f] a b c d e f
  show ?thesis
    by (simp add: toResult_def newCacheItem_def millis_def Millisecond_def Add_def)
qed

text \<open>The limiter \<open>first_policy_limiter\<close> is what one call leaves behind.\<close>

lemma first_policy_reached:
  "Get (New default_Options) 0 ''a'' [3, 100, 2, 200] =
     Some ((\<lparr>Total_res = 3, Remaining_res = 2, Duration_res = 100000000, Reset = 100000000\<rparr>, None),
           first_policy_limiter)"
  by (simp add: first_policy_limiter_def New_default limiter_defs)

text \<open>
  C2 fails on the code. \<^verbatim>\<open>initCacheItem\<close> writes \<^verbatim>\<open>Expire\<close> into every status entry
  and never reads it. In \<open>first_policy_limiter\<close>, which one call leaves behind, the status
  entry expired at 200 ms; at 250 ms the window is over as well, and \<^verbatim>\<open>Get\<close> starts a
  window of the second policy (2 per 200 ms), not one of the first (3 per 100 ms).
\<close>

theorem expired_status_entry_still_escalates:
  "status first_policy_limiter (statusKey_of ''limit:a'') =
     Some \<lparr>Index = 1, Expire_status = 200000000\<rparr> \<and>
   Before 200000000 250000000 \<and>
   window_over first_policy_limiter 250000000 ''limit:a'' \<and>
   map_option fst (Get first_policy_limiter 250000000 ''a'' [3, 100, 2, 200]) =
     Some (\<lparr>Total_res = 2, Remaining_res = 1, Duration_res = 200000000, Reset = 450000000\<rparr>, None) \<and>
   map_option fst (Get first_policy_limiter 250000000 ''a'' [3, 100, 2, 200]) \<noteq>
     Some (\<lparr>Total_res = 3, Remaining_res = 2, Duration_res = 100000000, Reset = 350000000\<rparr>, None)"
  by (simp add: first_policy_limiter_def New_default limiter_defs window_over_def)

subsection \<open>Expiry of a window\<close>

text \<open>The limiter \<open>one_window_limiter\<close> is what one call leaves behind.\<close>

lemma one_window_reached:
  "Get (New default_Options) 0 ''a'' [10, 100] =
     Some ((\<lparr>Total_res = 10, Remaining_res = 9, Duration_res = 100000000, Reset = 100000000\<rparr>, None),
           one_window_limiter)"
  by (simp add: one_window_limiter_def New_default limiter_defs)

text \<open>
  C8 as stated fails at the instant \<^verbatim>\<open>Expire\<close> itself. The entry of
  \<open>one_window_limiter\<close> expires at 100 ms; a \<^verbatim>\<open>Get\<close> at exactly 100 ms decrements it
  from 9 to 8 and starts no window.
\<close>

theorem Expire_instant_not_stale_counterexample:
  "store one_window_limiter ''limit:a'' =
     Some \<lparr>Total = 10, Remaining = 9, Duration = 100000000, Expire = 100000000\<rparr> \<and>
   map_option fst (Get one_window_limiter 100000000 ''a'' [10, 100]) =
     Some (\<lparr>Total_res = 10, Remaining_res = 8, Duration_res = 100000000, Reset = 100000000\<rparr>, None) \<and>
   map_option fst (Get one_window_limiter 100000000 ''a'' [10, 100]) \<noteq>
     Some (\<lparr>Total_res = 10, Remaining_res = 9, Duration_res = 100000000, Reset = 200000000\<rparr>, None)"
  by (simp add: one_window_limiter_def New_default limiter_defs)

text \<open>
  C8, amended. For every identifier with an entry in the store, a \<^verbatim>\<open>Get\<close> whose
  current time is strictly after the entry's \<^verbatim>\<open>Expire\<close> starts a fresh window: it
  returns, and the entry it stores and reports has remaining = total - 1 and expires one
  window from now. A \<^verbatim>\<open>Get\<close> at the instant \<^verbatim>\<open>Expire\<close> or before it works on the
  old entry: it decrements remaining, or leaves the entry as it is once remaining is -1.
  (The policy list is paired and has fewer than \<open>2\<^sup>3\<^sup>1\<close> values, and the status index of
  the identifier is not negative.)
\<close>

theorem entry_stale_strictly_after_Expire:
  assumes entry: "store l (Prefix (options l) @ ident) = Some e"
    and paired: "even (length policy)"
    and short: "length policy < 2 ^ 31"
    and ok: "status_index_ok l (statusKey_of (Prefix (options l) @ ident))"
  shows "(Expire e < now \<longrightarrow>
           (\<exists>item l1. Get l now ident policy = Some ((toResult item, None), l1) \<and>
              store l1 (Prefix (options l) @ ident) = Some item \<and>
              Remaining item = Total item - 1 \<and>
              Expire item = Add now (Duration item))) \<and>
         (now \<le> Expire e \<longrightarrow>
            Get l now ident policy =
              Some ((toResult (if Remaining e = - 1 then e else e\<lparr>Remaining := Remaining e - 1\<rparr>), None),
                    l\<lparr>store := (store l)(Prefix (options l) @ ident \<mapsto>
                         (if Remaining e = - 1 then e else e\<lparr>Remaining := Remaining e - 1\<rparr>))\<rparr>))"
proof (intro conjI impI)
  let ?key = "Prefix (options l) @ ident"
  define args where "args =
    (if length policy = 0
     then [Max_opt (options l),
           word_of_int (sint (Duration_opt (options l)) sdiv sint Millisecond)]
     else policy)"
  have get: "Get l now ident policy = getResult l now ?key args"
    using paired by (simp add: Get_def Let_def args_def)
  have len: "2 \<le> length args" "length args < 2 ^ 31"
    using paired short even_length_ge2 [of policy] by (auto simp: args_def)
  {
    assume "Expire e < now"
    then have over: "window_over l now ?key"
      using entry by (simp add: window_over_def getMapValue_def Before_def)
    obtain tot d st where init: "initCacheItem l now ?key args =
        Some (newCacheItem now tot d,
              l\<lparr>status := st, store := (store l)(?key \<mapsto> newCacheItem now tot d)\<rparr>)"
      using initCacheItem_returns [OF len ok] by blast
    have "Get l now ident policy =
        Some ((toResult (newCacheItem now tot d), None),
              l\<lparr>status := st, store := (store l)(?key \<mapsto> newCacheItem now tot d)\<rparr>)"
      by (simp add: get getResult_def getLimit_window_over [OF over] init)
    moreover have "Remaining (newCacheItem now tot d) = Total (newCacheItem now tot d) - 1"
      "Expire (newCacheItem now tot d) = Add now (Duration (newCacheItem now tot d))"
      by (simp_all add: newCacheItem_def)
    ultimately show "\<exists>item l1. Get l now ident policy = Some ((toResult item, None), l1) \<and>
              store l1 ?key = Some item \<and>
              Remaining item = Total item - 1 \<and>
              Expire item = Add now (Duration item)"
      by (intro exI [of _ "newCacheItem now tot d"]
            exI [of _ "l\<lparr>status := st, store := (store l)(?key \<mapsto> newCacheItem now tot d)\<rparr>"]) simp
  }
  {
    assume "now \<le> Expire e"
    then have live: "\<not> Before (Expire e) now" by (simp add: Before_def)
    show "Get l now ident policy =
              Some ((toResult (if Remaining e = - 1 then e else e\<lparr>Remaining := Remaining e - 1\<rparr>), None),
                    l\<lparr>store := (store l)(?key \<mapsto>
                         (if Remaining e = - 1 then e else e\<lparr>Remaining := Remaining e - 1\<rparr>))\<rparr>)"
      by (simp add: get getResult_def getLimit_live [OF entry live])
  }
qed

theorem entry_stale_strictly_after_Expire_witness:
  "store one_window_limiter (Prefix (options one_window_limiter) @ ''a'') =
     Some \<lparr>Total = 10, Remaining = 9, Duration = 100000000, Expire = 100000000\<rparr> \<and>
   even (length [10, 100 :: int32]) \<and>
   status_index_ok one_window_limiter (statusKey_of (Prefix (options one_window_limiter) @ ''a'')) \<and>
   map_option fst (Get one_window_limiter 100000001 ''a'' [10, 100]) =
     Some (\<lparr>Total_res = 10, Remaining_res = 9, Duration_res = 100000000, Reset = 200000001\<rparr>, None) \<and>
   map_option fst (Get one_window_limiter 100000000 ''a'' [10, 100]) =
     Some (\<lparr>Total_res = 10, Remaining_res = 8, Duration_res = 100000000, Reset = 100000000\<rparr>, None)"
proof -
  let ?e = "\<lparr>Total = 10, Remaining = 9, Duration = 100000000, Expire = 100000000\<rparr>"
  have a: "store one_window_limiter (Prefix (options one_window_limiter) @ ''a'') = Some ?e"
    by (simp add: one_window_limiter_def New_default)
  have b: "even (length [10, 100 :: int32])" by simp
  have c: "length [10, 100 :: int32] < 2 ^ 31" by simp
  have d: "status_index_ok one_window_limiter
             (statusKey_of (Prefix (options one_window_limiter) @ ''a''))"
    by (simp add: status_index_ok_def getStatusMapValue_def one_window_limiter_def New_default)
  have after: "\<exists>item l1. Get one_window_limiter 100000001 ''a'' [10, 100] =
                 Some ((toResult item, None), l1) \<and>
               store l1 (Prefix (options one_window_limiter) @ ''a'') = Some item \<and>
               Remaining item = Total item - 1 \<and> Expire item = Add 100000001 (Duration item)"
    using entry_stale_strictly_after_Expire [OF a b c d, of 100000001] by simp
  have at: "Get one_window_limiter 100000000 ''a'' [10, 100] =
      Some ((toResult (?e\<lparr>Remaining := 8\<rparr>), None),
            one_window_limiter\<lparr>store := (store one_window_limiter)
              (Prefix (options one_window_limiter) @ ''a'' \<mapsto> ?e\<lparr>Remaining := 8\<rparr>)\<rparr>)"
    using entry_stale_strictly_after_Expire [OF a b c d, of 100000000] by simp
  have "map_option fst (Get one_window_limiter 100000001 ''a'' [10, 100]) =
     Some (\<lparr>Total_res = 10, Remaining_res = 9, Duration_res = 100000000, Reset = 200000001\<rparr>, None)"
    using after by (simp add: one_window_limiter_def New_default limiter_defs)
  with a b d at show ?thesis by (simp add: toResult_def)
qed

subsection \<open>Cleaning\<close>

text \<open>
  \<^verbatim>\<open>Clean\<close> calls \<^verbatim>\<open>Remove(key)\<close> with the key it found in the store. \<^verbatim>\<open>Remove\<close>
  puts the prefix in front of its argument, so with a prefix that is not empty (and
  \<^verbatim>\<open>New\<close> makes it so) the entry deleted is never the one that was found expired.
\<close>

lemma Remove_keeps_store_key:
  "Prefix (options l) \<noteq> [] \<Longrightarrow> store (Remove l key) key = store l key"
  by (simp add: Remove_def Let_def)

text \<open>
  C3 fails on the code. The entry of \<open>one_window_limiter\<close> expired at 100 ms; after
  \<^verbatim>\<open>Clean\<close> at 200 ms it is still in the store.
\<close>

theorem Clean_keeps_expired_entry:
  "store one_window_limiter ''limit:a'' =
     Some \<lparr>Total = 10, Remaining = 9, Duration = 100000000, Expire = 100000000\<rparr> \<and>
   Before 100000000 200000000 \<and>
   store (Clean one_window_limiter 200000000 [''limit:a'']) ''limit:a'' =
     Some \<lparr>Total = 10, Remaining = 9, Duration = 100000000, Expire = 100000000\<rparr> \<and>
   Count (Clean one_window_limiter 200000000 [''limit:a'']) = 1"
  by (simp add: Clean_def Remove_def Count_def statusKey_of_def Before_def
      one_window_limiter_def New_default)

subsection \<open>Policies with values that are not positive\<close>

text \<open>\<^verbatim>\<open>Get\<close> checks the length of the policy list and nothing else.\<close>

lemma Get_even_no_error:
  "even (length policy) \<Longrightarrow> Get l now ident policy = Some ((r, err), l1) \<Longrightarrow> err = None"
  by (auto simp: Get_def getResult_def Let_def split: if_splits Option.bind_splits)

text \<open>
  C4 fails on the code. \<^verbatim>\<open>Get("a", -1, 10)\<close> and \<^verbatim>\<open>Get("a", 10, 0)\<close> on a new limiter
  return no error, and each stores an entry.
\<close>

theorem Get_accepts_nonpositive_policy:
  "Get (New default_Options) 0 ''a'' [- 1, 10] =
     Some ((\<lparr>Total_res = - 1, Remaining_res = - 2, Duration_res = 10000000, Reset = 10000000\<rparr>, None),
           (New default_Options)
             \<lparr>store := [''limit:a'' \<mapsto>
                \<lparr>Total = - 1, Remaining = - 2, Duration = 10000000, Expire = 10000000\<rparr>]\<rparr>) \<and>
   Get (New default_Options) 0 ''a'' [10, 0] =
     Some ((\<lparr>Total_res = 10, Remaining_res = 9, Duration_res = 0, Reset = 0\<rparr>, None),
           (New default_Options)
             \<lparr>store := [''limit:a'' \<mapsto>
                \<lparr>Total = 10, Remaining = 9, Duration = 0, Expire = 0\<rparr>]\<rparr>)"
  by (simp add: New_default limiter_defs)

subsection \<open>Counting down within one window\<close>

text \<open>
  A live entry whose remaining count is at least -1 counts down by one per call and stops
  at -1, for as long as no call comes after its \<^verbatim>\<open>Expire\<close>.
\<close>

lemma Get_live_entry:
  assumes "store l (Prefix (options l) @ ident) = Some e" "\<not> Before (Expire e) now"
    "even (length policy)" "policy \<noteq> []"
  shows "Get l now ident policy =
    Some ((toResult (if Remaining e = - 1 then e else e\<lparr>Remaining := Remaining e - 1\<rparr>), None),
          l\<lparr>store := (store l)(Prefix (options l) @ ident \<mapsto>
                (if Remaining e = - 1 then e else e\<lparr>Remaining := Remaining e - 1\<rparr>))\<rparr>)"
  by (simp add: Get_even_nonempty [OF assms(3,4)] getResult_def getLimit_live [OF assms(1,2)])

lemma sint_countdown:
  fixes r :: int32
  assumes "- 1 \<le> sint r"
  shows "sint (if r = - 1 then r else r - 1) = max (sint r - 1) (- 1)"
proof (cases "r = - 1")
  case True
  then show ?thesis by simp
next
  case False
  then have "sint r \<noteq> - 1" by (simp add: minus1_iff_int32)
  with assms have "0 \<le> sint r" by simp
  then have "sint (r - 1) = sint r - 1" by (intro sint_sub1_int32) simp
  with False \<open>0 \<le> sint r\<close> show ?thesis by simp
qed

lemma Gets_live_countdown:
  assumes "store l (Prefix (options l) @ ident) = Some e"
    and "Total e = Q" "Duration e = millis W"
    and "- 1 \<le> sint (Remaining e)"
    and "\<forall>t \<in> set ts. \<not> Before (Expire e) t"
  shows "\<exists>rs l1. Gets l (map (\<lambda>t. (t, ident, [Q, W])) ts) = Some (rs, l1) \<and>
           length rs = length ts \<and>
           (\<forall>k < length ts. rs ! k =
              (\<lparr>Total_res = sint Q, Remaining_res = max (sint (Remaining e) - 1 - int k) (- 1),
                Duration_res = millis W, Reset = Expire e\<rparr>, None))"
  using assms
proof (induction ts arbitrary: l e)
  case Nil
  then show ?case by simp
next
  case (Cons t ts)
  define e1 where "e1 = (if Remaining e = - 1 then e else e\<lparr>Remaining := Remaining e - 1\<rparr>)"
  define l1 where "l1 = l\<lparr>store := (store l)(Prefix (options l) @ ident \<mapsto> e1)\<rparr>"
  have live: "\<not> Before (Expire e) t" using Cons.prems(5) by simp
  have step: "Get l t ident [Q, W] = Some ((toResult e1, None), l1)"
    using Get_live_entry [OF Cons.prems(1) live, of "[Q, W]"] by (simp add: e1_def l1_def)
  have rem: "sint (Remaining e1) = max (sint (Remaining e) - 1) (- 1)"
    using sint_countdown [OF Cons.prems(4)] by (simp add: e1_def split: if_splits)
  have same: "Total e1 = Q" "Duration e1 = millis W" "Expire e1 = Expire e"
    using Cons.prems(2,3) by (simp_all add: e1_def)
  have p1: "store l1 (Prefix (options l1) @ ident) = Some e1" by (simp add: l1_def)
  have p4: "- 1 \<le> sint (Remaining e1)" using rem by simp
  have p5: "\<forall>t \<in> set ts. \<not> Before (Expire e1) t" using Cons.prems(5) same by simp
  obtain rs l2 where run: "Gets l1 (map (\<lambda>t. (t, ident, [Q, W])) ts) = Some (rs, l2)"
    and len: "length rs = length ts"
    and vals: "\<forall>k < length ts. rs ! k =
              (\<lparr>Total_res = sint Q, Remaining_res = max (sint (Remaining e1) - 1 - int k) (- 1),
                Duration_res = millis W, Reset = Expire e1\<rparr>, None)"
    using Cons.IH [OF p1 same(1,2) p4 p5] by blast
  have first: "toResult e1 =
      \<lparr>Total_res = sint Q, Remaining_res = max (sint (Remaining e) - 1 - int 0) (- 1),
       Duration_res = millis W, Reset = Expire e\<rparr>"
    using rem same by (simp add: toResult_def)
  have "Gets l (map (\<lambda>t. (t, ident, [Q, W])) (t # ts)) = Some ((toResult e1, None) # rs, l2)"
    by (simp add: step run)
  moreover have "length ((toResult e1, None) # rs) = length (t # ts)" using len by simp
  moreover have "\<forall>k < length (t # ts). ((toResult e1, None) # rs) ! k =
              (\<lparr>Total_res = sint Q, Remaining_res = max (sint (Remaining e) - 1 - int k) (- 1),
                Duration_res = millis W, Reset = Expire e\<rparr>, None)"
  proof (intro allI impI)
    fix k assume k: "k < length (t # ts)"
    show "((toResult e1, None) # rs) ! k =
              (\<lparr>Total_res = sint Q, Remaining_res = max (sint (Remaining e) - 1 - int k) (- 1),
                Duration_res = millis W, Reset = Expire e\<rparr>, None)"
    proof (cases k)
      case 0
      then show ?thesis using first by simp
    next
      case (Suc j)
      then have "j < length ts" using k by simp
      with vals have "rs ! j = (\<lparr>Total_res = sint Q,
            Remaining_res = max (sint (Remaining e1) - 1 - int j) (- 1),
            Duration_res = millis W, Reset = Expire e1\<rparr>, None)" by blast
      moreover have "max (sint (Remaining e1) - 1 - int j) (- 1) =
                     max (sint (Remaining e) - 1 - int (Suc j)) (- 1)"
        unfolding rem by simp
      ultimately show ?thesis using Suc same by simp
    qed
  qed
  ultimately show ?case by blast
qed


lemma Get_single_window_over:
  assumes "window_over l now (Prefix (options l) @ ident)"
  shows "Get l now ident [Q, W] =
    Some ((toResult (newCacheItem now Q W), None),
          setMapValue l (Prefix (options l) @ ident) (newCacheItem now Q W))"
proof -
  have single: "\<not> 1 < sint (policyCount_of [Q, W])" by (simp add: policyCount_of_def)
  have "initCacheItem l now (Prefix (options l) @ ident) [Q, W] =
      Some (newCacheItem now Q W, setMapValue l (Prefix (options l) @ ident) (newCacheItem now Q W))"
    using initCacheItem_single [OF single, of l now "Prefix (options l) @ ident"] by simp
  then show ?thesis
    by (simp add: Get_even_nonempty getResult_def getLimit_window_over [OF assms])
qed

text \<open>
  C5. For every identifier and every single policy with a positive quota \<open>Q\<close> and window
  \<open>W\<close>: when the first \<^verbatim>\<open>Get\<close> starts the window at \<open>t1\<close> and the later ones come no
  later than its end, every call returns, with no error, and call number \<open>n\<close> (counting
  from 1) reports total \<open>Q\<close> and remaining \<open>max (Q - n) (-1)\<close>: \<open>Q - 1\<close> on the first call,
  0 on call \<open>Q\<close>, and -1 on every call after that, never less. (The theorem needs no
  assumption on \<open>W\<close>; with a window that is not positive no later instant is within it.)
\<close>

theorem single_policy_countdown:
  assumes pos: "0 < sint Q"
    and over: "window_over l t1 (Prefix (options l) @ ident)"
    and within: "\<forall>t \<in> set ts. \<not> Before (Add t1 (millis W)) t"
  shows "\<exists>rs l1. Gets l (map (\<lambda>t. (t, ident, [Q, W])) (t1 # ts)) = Some (rs, l1) \<and>
           length rs = Suc (length ts) \<and>
           (\<forall>k < Suc (length ts). rs ! k =
              (\<lparr>Total_res = sint Q, Remaining_res = max (sint Q - int (Suc k)) (- 1),
                Duration_res = millis W, Reset = Add t1 (millis W)\<rparr>, None))"
proof -
  define e0 where "e0 = newCacheItem t1 Q W"
  define l0 where "l0 = setMapValue l (Prefix (options l) @ ident) e0"
  have step: "Get l t1 ident [Q, W] = Some ((toResult e0, None), l0)"
    unfolding e0_def l0_def by (rule Get_single_window_over [OF over])
  have rem: "sint (Remaining e0) = sint Q - 1"
    using pos by (simp add: e0_def newCacheItem_def sint_sub1_int32)
  have fields: "Total e0 = Q" "Duration e0 = millis W" "Expire e0 = Add t1 (millis W)"
    by (simp_all add: e0_def newCacheItem_def)
  have p1: "store l0 (Prefix (options l0) @ ident) = Some e0"
    by (simp add: l0_def setMapValue_def)
  have p4: "- 1 \<le> sint (Remaining e0)" using rem pos by simp
  have p5: "\<forall>t \<in> set ts. \<not> Before (Expire e0) t" using within fields by simp
  obtain rs l1 where run: "Gets l0 (map (\<lambda>t. (t, ident, [Q, W])) ts) = Some (rs, l1)"
    and len: "length rs = length ts"
    and vals: "\<forall>k < length ts. rs ! k =
              (\<lparr>Total_res = sint Q, Remaining_res = max (sint (Remaining e0) - 1 - int k) (- 1),
                Duration_res = millis W, Reset = Expire e0\<rparr>, None)"
    using Gets_live_countdown [OF p1 fields(1,2) p4 p5] by blast
  have "Gets l (map (\<lambda>t. (t, ident, [Q, W])) (t1 # ts)) = Some ((toResult e0, None) # rs, l1)"
    by (simp add: step run)
  moreover have "length ((toResult e0, None) # rs) = Suc (length ts)" using len by simp
  moreover have "\<forall>k < Suc (length ts). ((toResult e0, None) # rs) ! k =
              (\<lparr>Total_res = sint Q, Remaining_res = max (sint Q - int (Suc k)) (- 1),
                Duration_res = millis W, Reset = Add t1 (millis W)\<rparr>, None)"
  proof (intro allI impI)
    fix k assume k: "k < Suc (length ts)"
    show "((toResult e0, None) # rs) ! k =
              (\<lparr>Total_res = sint Q, Remaining_res = max (sint Q - int (Suc k)) (- 1),
                Duration_res = millis W, Reset = Add t1 (millis W)\<rparr>, None)"
    proof (cases k)
      case 0
      then show ?thesis using rem fields pos by (simp add: toResult_def)
    next
      case (Suc j)
      then have "j < length ts" using k by simp
      with vals have "rs ! j = (\<lparr>Total_res = sint Q,
            Remaining_res = max (sint (Remaining e0) - 1 - int j) (- 1),
            Duration_res = millis W, Reset = Expire e0\<rparr>, None)" by blast
      moreover have "sint (Remaining e0) - 1 - int j = sint Q - int (Suc k)"
        using rem Suc by simp
      ultimately show ?thesis using Suc fields by simp
    qed
  qed
  ultimately show ?thesis by blast
qed

theorem single_policy_countdown_witness:
  "0 < sint (3 :: int32) \<and>
   window_over (New default_Options) 0 (Prefix (options (New default_Options)) @ ''a'') \<and>
   \<not> Before (Add 0 (millis 100)) 10 \<and> \<not> Before (Add 0 (millis 100)) 20 \<and>
   \<not> Before (Add 0 (millis 100)) 30 \<and> \<not> Before (Add 0 (millis 100)) 100000000 \<and>
   (\<exists>rs l1. Gets (New default_Options)
               (map (\<lambda>t. (t, ''a'', [3, 100])) (0 # [10, 20, 30, 100000000])) = Some (rs, l1) \<and>
            length rs = Suc (length [10, 20, 30, 100000000 :: time]) \<and>
            (\<forall>k < Suc (length [10, 20, 30, 100000000 :: time]). rs ! k =
               (\<lparr>Total_res = sint (3 :: int32), Remaining_res = max (sint (3 :: int32) - int (Suc k)) (- 1),
                 Duration_res = millis 100, Reset = Add 0 (millis 100)\<rparr>, None))) \<and>
   map_option (map (Remaining_res \<circ> fst) \<circ> fst)
     (Gets (New default_Options) (map (\<lambda>t. (t, ''a'', [3, 100])) [0, 10, 20, 30, 100000000])) =
     Some [2, 1, 0, - 1, - 1]"
proof -
  have a: "0 < sint (3 :: int32)" by simp
  have b: "window_over (New default_Options) 0 (Prefix (options (New default_Options)) @ ''a'')"
    by (simp add: window_over_def getMapValue_def New_default)
  have c: "\<not> Before (Add 0 (millis 100)) 10 \<and> \<not> Before (Add 0 (millis 100)) 20 \<and>
     \<not> Before (Add 0 (millis 100)) 30 \<and> \<not> Before (Add 0 (millis 100)) 100000000"
    by (simp add: Before_def Add_def millis_def Millisecond_def)
  then have c': "\<forall>t \<in> set [10, 20, 30, 100000000]. \<not> Before (Add 0 (millis 100)) t"
    by simp
  have d: "map_option (map (Remaining_res \<circ> fst) \<circ> fst)
     (Gets (New default_Options) (map (\<lambda>t. (t, ''a'', [3, 100])) [0, 10, 20, 30, 100000000])) =
     Some [2, 1, 0, - 1, - 1]"
    by (simp add: New_default limiter_defs)
  note e = single_policy_countdown [OF a b c']
  from a b c e d show ?thesis by (intro conjI) simp_all
qed

subsection \<open>Removing an identifier\<close>

text \<open>
  What \<^verbatim>\<open>Get\<close> returns for an identifier, and what it leaves behind for it, depends on
  the limiter only through the options and the two entries of that identifier.
\<close>

lemma initCacheItem_local:
  assumes "status l (statusKey_of key) = status l0 (statusKey_of key)"
  shows "map_option (\<lambda>out. (fst out, store (snd out) key, status (snd out) (statusKey_of key)))
           (initCacheItem l now key args) =
         map_option (\<lambda>out. (fst out, store (snd out) key, status (snd out) (statusKey_of key)))
           (initCacheItem l0 now key args)"
  using assms
  by (simp add: initCacheItem_def Let_def getStatusMapValue_def setStatusMapValue_def
      setMapValue_def split: option.splits Option.bind_split)

lemma getLimit_local:
  assumes "store l key = store l0 key"
    and "status l (statusKey_of key) = status l0 (statusKey_of key)"
  shows "map_option (\<lambda>out. (fst out, store (snd out) key, status (snd out) (statusKey_of key)))
           (getLimit l now key args) =
         map_option (\<lambda>out. (fst out, store (snd out) key, status (snd out) (statusKey_of key)))
           (getLimit l0 now key args)"
  using assms initCacheItem_local [OF assms(2), of now args]
  by (simp add: getLimit_def getMapValue_def Let_def split: option.splits)

lemma getLimit_options:
  "getLimit l now key args = Some (res, l1) \<Longrightarrow> options l1 = options l"
  by (auto simp: getLimit_def initCacheItem_def Let_def setMapValue_def setStatusMapValue_def
      split: if_splits option.splits Option.bind_splits)

lemma Get_local:
  assumes opts: "options l = options l0"
    and same: "identifier_state l ident = identifier_state l0 ident"
  shows "map_option fst (Get l now ident policy) = map_option fst (Get l0 now ident policy) \<and>
         map_option (\<lambda>out. identifier_state (snd out) ident) (Get l now ident policy) =
         map_option (\<lambda>out. identifier_state (snd out) ident) (Get l0 now ident policy)"
proof (cases "odd (length policy)")
  case True
  then show ?thesis using same by (simp add: Get_def Let_def odd_iff_mod_2_eq_one)
next
  case False
  define key where "key = Prefix (options l) @ ident"
  define args where "args =
    (if length policy = 0
     then [Max_opt (options l),
           word_of_int (sint (Duration_opt (options l)) sdiv sint Millisecond)]
     else policy)"
  have g: "Get l now ident policy = getResult l now key args"
    using False by (simp add: Get_def Let_def args_def key_def)
  have g0: "Get l0 now ident policy = getResult l0 now key args"
    using False opts by (simp add: Get_def Let_def args_def key_def)
  have st: "store l key = store l0 key" "status l (statusKey_of key) = status l0 (statusKey_of key)"
    using same opts
    by (simp_all add: identifier_state_def Let_def key_def getMapValue_def getStatusMapValue_def)
  note loc = getLimit_local [OF st, of now args]
  show ?thesis
  proof (cases "getLimit l now key args")
    case None
    with loc have "getLimit l0 now key args = None" by simp
    with None show ?thesis by (simp add: g g0 getResult_def)
  next
    case (Some out)
    obtain res l1 where out: "out = (res, l1)" by (cases out)
    from Some loc obtain out0 where Some0: "getLimit l0 now key args = Some out0"
      by (cases "getLimit l0 now key args") auto
    obtain res0 l2 where out0: "out0 = (res0, l2)" by (cases out0)
    from loc Some Some0 have eq: "res = res0" "store l1 key = store l2 key"
      "status l1 (statusKey_of key) = status l2 (statusKey_of key)"
      by (simp_all add: out out0)
    have o1: "options l1 = options l" using getLimit_options Some out by blast
    have o2: "options l2 = options l0" using getLimit_options Some0 out0 by blast
    have "identifier_state l1 ident = identifier_state l2 ident"
      using eq o1 o2 opts
      by (simp add: identifier_state_def Let_def key_def getMapValue_def getStatusMapValue_def)
    then show ?thesis
      using eq(1) by (simp add: g g0 getResult_def Some Some0 out out0)
  qed
qed

text \<open>
  C7. \<^verbatim>\<open>Remove\<close> deletes the store entry and the status entry of the identifier, and a
  \<^verbatim>\<open>Get\<close> after it behaves as on any limiter \<open>l0\<close> with the same options that holds
  nothing for the identifier: both calls return the same \<^verbatim>\<open>Result\<close> and error (or both
  panic), and both leave the same two entries for the identifier.
\<close>

theorem Remove_then_Get_as_never_seen:
  assumes "options l0 = options l"
    and "identifier_state l0 ident = (None, None)"
  shows "identifier_state (Remove l ident) ident = (None, None) \<and>
         map_option fst (Get (Remove l ident) now ident policy) =
           map_option fst (Get l0 now ident policy) \<and>
         map_option (\<lambda>out. identifier_state (snd out) ident) (Get (Remove l ident) now ident policy) =
           map_option (\<lambda>out. identifier_state (snd out) ident) (Get l0 now ident policy)"
proof -
  have removed: "identifier_state (Remove l ident) ident = (None, None)"
    by (simp add: identifier_state_def Remove_def Let_def getMapValue_def getStatusMapValue_def)
  have "options (Remove l ident) = options l0"
    using assms(1) by (simp add: Remove_def Let_def)
  from Get_local [OF this, of ident now policy] removed assms(2)
  show ?thesis by simp
qed

theorem Remove_then_Get_as_never_seen_witness:
  "options (New default_Options) = options two_windows_limiter \<and>
   identifier_state (New default_Options) ''a'' = (None, None) \<and>
   identifier_state two_windows_limiter ''a'' \<noteq> (None, None) \<and>
   identifier_state (Remove two_windows_limiter ''a'') ''a'' = (None, None) \<and>
   map_option fst (Get (Remove two_windows_limiter ''a'') 400000000 ''a'' [3, 100, 2, 200]) =
     map_option fst (Get (New default_Options) 400000000 ''a'' [3, 100, 2, 200]) \<and>
   map_option (\<lambda>out. identifier_state (snd out) ''a'')
       (Get (Remove two_windows_limiter ''a'') 400000000 ''a'' [3, 100, 2, 200]) =
     map_option (\<lambda>out. identifier_state (snd out) ''a'')
       (Get (New default_Options) 400000000 ''a'' [3, 100, 2, 200]) \<and>
   map_option fst (Get (New default_Options) 400000000 ''a'' [3, 100, 2, 200]) =
     Some (\<lparr>Total_res = 3, Remaining_res = 2, Duration_res = 100000000, Reset = 500000000\<rparr>, None)"
proof -
  have a: "options (New default_Options) = options two_windows_limiter"
    by (simp add: two_windows_limiter_def)
  have b: "identifier_state (New default_Options) ''a'' = (None, None)"
    by (simp add: identifier_state_def New_default getMapValue_def getStatusMapValue_def)
  have c: "identifier_state two_windows_limiter ''a'' \<noteq> (None, None)"
    by (simp add: identifier_state_def two_windows_limiter_def New_default getMapValue_def
        getStatusMapValue_def)
  have d: "map_option fst (Get (New default_Options) 400000000 ''a'' [3, 100, 2, 200]) =
     Some (\<lparr>Total_res = 3, Remaining_res = 2, Duration_res = 100000000, Reset = 500000000\<rparr>, None)"
    by (simp add: New_default limiter_defs)
  note e = Remove_then_Get_as_never_seen [OF a b, of 400000000 "[3, 100, 2, 200]"]
  from a b c d e show ?thesis by (intro conjI) simp_all
qed

subsection \<open>Counting\<close>

text \<open>
  A \<^verbatim>\<open>Get\<close> that returns without error has put the identifier's key into the store
  and taken no key out.
\<close>

lemma initCacheItem_store:
  assumes "initCacheItem l now key args = Some (res, l1)"
  shows "store l1 = (store l)(key \<mapsto> res) \<and> options l1 = options l"
  using assms
  by (auto simp: initCacheItem_def Let_def setMapValue_def setStatusMapValue_def
      split: if_splits option.splits Option.bind_splits)

lemma getLimit_store:
  assumes "getLimit l now key args = Some (res, l1)"
  shows "dom (store l1) = insert key (dom (store l)) \<and> options l1 = options l"
proof (cases "window_over l now key")
  case True
  with assms have "initCacheItem l now key args = Some (res, l1)"
    by (simp add: getLimit_window_over)
  from initCacheItem_store [OF this] show ?thesis by simp
next
  case False
  then obtain e where e: "store l key = Some e" "\<not> Before (Expire e) now"
    by (auto simp: window_over_def getMapValue_def split: option.splits)
  from assms show ?thesis
    unfolding getLimit_live [OF e] using e(1) by (auto split: if_splits)
qed

lemma Get_success_store:
  assumes "Get l now ident policy = Some ((r, None), l1)"
  shows "dom (store l1) = insert (Prefix (options l) @ ident) (dom (store l)) \<and>
         options l1 = options l"
proof -
  from assms obtain res args where
    "getLimit l now (Prefix (options l) @ ident) args = Some (res, l1)"
    by (auto simp: Get_def getResult_def Let_def split: if_splits Option.bind_splits)
  from getLimit_store [OF this] show ?thesis .
qed

lemma Gets_success_store:
  assumes "Gets l calls = Some (rs, l1)" "\<forall>r \<in> set rs. snd r = None"
  shows "dom (store l1) = dom (store l) \<union> (\<lambda>c. Prefix (options l) @ fst (snd c)) ` set calls \<and>
         options l1 = options l"
  using assms
proof (induction calls arbitrary: l rs)
  case Nil
  then show ?case by simp
next
  case (Cons c calls)
  obtain now ident policy where c: "c = (now, ident, policy)" by (cases c) auto
  from Cons.prems(1) obtain r l2 rs2 where
    step: "Get l now ident policy = Some (r, l2)"
    and run: "Gets l2 calls = Some (rs2, l1)"
    and rs: "rs = r # rs2"
    by (auto simp: c split: option.splits)
  from Cons.prems(2) rs have noerr: "snd r = None" "\<forall>r \<in> set rs2. snd r = None" by simp_all
  from step noerr(1) have "Get l now ident policy = Some ((fst r, None), l2)"
    by (cases r) simp
  from Get_success_store [OF this]
  have a: "dom (store l2) = insert (Prefix (options l) @ ident) (dom (store l))"
    and b: "options l2 = options l" by simp_all
  from Cons.IH [OF run noerr(2)] a b show ?case by (auto simp: c)
qed

text \<open>
  On a new limiter every sequence of calls with paired policies of fewer than \<open>2\<^sup>3\<^sup>1\<close>
  values returns, without error: the status indices stay from 1 upwards, so no index into
  the policy list is out of range.
\<close>

lemma status_index_ok_store [simp]:
  "status_index_ok (l\<lparr>store := s\<rparr>) = status_index_ok l"
  by (simp add: fun_eq_iff status_index_ok_def getStatusMapValue_def)

lemma status_index_ok_update:
  "\<forall>k. status_index_ok l k \<Longrightarrow> 0 \<le> sint (Index si) \<Longrightarrow>
   \<forall>k. status_index_ok (setStatusMapValue l k0 si) k"
  by (simp add: status_index_ok_def getStatusMapValue_def setStatusMapValue_def)

lemma initCacheItem_returns_ok:
  assumes len: "2 \<le> length args" "length args < 2 ^ 31"
    and ok: "\<forall>k. status_index_ok l k"
  shows "\<exists>res l1. initCacheItem l now key args = Some (res, l1) \<and> (\<forall>k. status_index_ok l1 k)"
proof (cases "1 < sint (policyCount_of args)")
  case False
  from initCacheItem_single [OF False len(1)] ok
  show ?thesis by (simp add: setMapValue_def)
next
  case multi: True
  show ?thesis
  proof (cases "status l (statusKey_of key)")
    case None
    from initCacheItem_first [OF multi None, of now]
      status_index_ok_update [OF ok, of "\<lparr>Index = 1, Expire_status = Add now (millis (args ! 1) * 2)\<rparr>" "statusKey_of key"]
    show ?thesis by (simp add: setMapValue_def)
  next
    case (Some si)
    show ?thesis
    proof (cases "sint (policyCount_of args) \<le> sint (Index si)")
      case True
      from initCacheItem_wrap [OF multi Some True, of now]
        status_index_ok_update [OF ok, of "\<lparr>Index = 1, Expire_status = Add now (millis (args ! 1) * 2)\<rparr>" "statusKey_of key"]
      show ?thesis by (simp add: setMapValue_def)
    next
      case False
      then have lt: "sint (Index si) < sint (policyCount_of args)" by simp
      have nn: "0 \<le> sint (Index si)"
        using ok Some by (auto simp: status_index_ok_def getStatusMapValue_def split: option.splits)
      have "sint (Index si) < 2 ^ 31 - 1"
        using lt sint_lt [of "policyCount_of args"] by simp
      then have "sint (Index si + 1) = sint (Index si) + 1" by (rule sint_add1_int32)
      with nn have nn1: "0 \<le> sint (Index si + 1)" by simp
      let ?si = "\<lparr>Index = Index si + 1,
          Expire_status = Add now (millis (args ! (2 * nat (sint (Index si)) + 1)) * 2)\<rparr>"
      from initCacheItem_advance [OF multi Some lt nn len(2), of now]
        status_index_ok_update [OF ok, of ?si "statusKey_of key"] nn1
      show ?thesis by (simp add: setMapValue_def)
    qed
  qed
qed

lemma Get_returns_ok:
  assumes paired: "even (length policy)" and short: "length policy < 2 ^ 31"
    and ok: "\<forall>k. status_index_ok l k"
  shows "\<exists>r l1. Get l now ident policy = Some ((r, None), l1) \<and> (\<forall>k. status_index_ok l1 k)"
proof -
  define key where "key = Prefix (options l) @ ident"
  define args where "args =
    (if length policy = 0
     then [Max_opt (options l),
           word_of_int (sint (Duration_opt (options l)) sdiv sint Millisecond)]
     else policy)"
  have get: "Get l now ident policy = getResult l now key args"
    using paired by (simp add: Get_def Let_def args_def key_def)
  have len: "2 \<le> length args" "length args < 2 ^ 31"
    using paired short even_length_ge2 [of policy] by (auto simp: args_def)
  show ?thesis
  proof (cases "window_over l now key")
    case True
    from initCacheItem_returns_ok [OF len ok, of now key]
    show ?thesis by (auto simp: get getResult_def getLimit_window_over [OF True])
  next
    case False
    then obtain e where e: "store l key = Some e" "\<not> Before (Expire e) now"
      by (auto simp: window_over_def getMapValue_def split: option.splits)
    show ?thesis using ok by (simp add: get getResult_def getLimit_live [OF e])
  qed
qed

lemma Gets_returns_ok:
  assumes "\<forall>c \<in> set calls. even (length (snd (snd c))) \<and> length (snd (snd c)) < 2 ^ 31"
    and "\<forall>k. status_index_ok l k"
  shows "\<exists>rs l1. Gets l calls = Some (rs, l1) \<and> (\<forall>r \<in> set rs. snd r = None)"
  using assms
proof (induction calls arbitrary: l)
  case Nil
  then show ?case by simp
next
  case (Cons c calls)
  obtain now ident policy where c: "c = (now, ident, policy)" by (cases c) auto
  from Cons.prems(1) have p: "even (length policy)" "length policy < 2 ^ 31" by (simp_all add: c)
  from Get_returns_ok [OF p Cons.prems(2), of now ident]
  obtain r l1 where step: "Get l now ident policy = Some ((r, None), l1)"
    and ok1: "\<forall>k. status_index_ok l1 k" by blast
  from Cons.prems(1) have "\<forall>c \<in> set calls. even (length (snd (snd c))) \<and> length (snd (snd c)) < 2 ^ 31"
    by simp
  from Cons.IH [OF this ok1] obtain rs l2 where
    run: "Gets l1 calls = Some (rs, l2)" and noerr: "\<forall>r \<in> set rs. snd r = None" by blast
  show ?case using step run noerr by (simp add: c)
qed

lemma Gets_from_New_returns:
  assumes "\<forall>c \<in> set calls. even (length (snd (snd c))) \<and> length (snd (snd c)) < 2 ^ 31"
  shows "\<exists>rs l. Gets (New opts) calls = Some (rs, l) \<and> (\<forall>r \<in> set rs. snd r = None)"
proof -
  have "\<forall>k. status_index_ok (New opts) k"
    by (simp add: status_index_ok_def getStatusMapValue_def New_def Let_def)
  from Gets_returns_ok [OF assms this] show ?thesis .
qed

text \<open>
  C10. After any sequence of \<^verbatim>\<open>Get\<close> calls on a new limiter that all returned without
  error, \<^verbatim>\<open>Count\<close> is the number of distinct identifiers among the calls, whatever
  their policies; and storing a status entry, in any limiter, leaves \<^verbatim>\<open>Count\<close> as it
  was.
\<close>

theorem Count_is_number_of_identifiers:
  assumes "Gets (New opts) calls = Some (rs, l)" and "\<forall>r \<in> set rs. snd r = None"
  shows "Count l = int (card (set (map (fst \<circ> snd) calls))) \<and>
         Count (setStatusMapValue l1 statusKey statusItem) = Count l1"
proof -
  let ?p = "Prefix (options (New opts))"
  from Gets_success_store [OF assms]
  have "dom (store l) = (\<lambda>c. ?p @ fst (snd c)) ` set calls"
    by (simp add: New_def Let_def)
  also have "\<dots> = (\<lambda>i. ?p @ i) ` set (map (fst \<circ> snd) calls)"
    by (simp add: image_image)
  finally have "card (dom (store l)) = card ((\<lambda>i. ?p @ i) ` set (map (fst \<circ> snd) calls))"
    by simp
  also have "\<dots> = card (set (map (fst \<circ> snd) calls))"
    by (rule card_image) (simp add: inj_on_def)
  finally show ?thesis by (simp add: Count_def setStatusMapValue_def)
qed

theorem Count_is_number_of_identifiers_witness:
  "(\<exists>rs l. Gets (New default_Options)
              [(0, ''1'', [100, 100]), (0, ''2'', [100, 100, 50, 200]), (5, ''1'', [100, 100])] =
              Some (rs, l) \<and>
            (\<forall>r \<in> set rs. snd r = None) \<and> Count l = 2) \<and>
   Count (setStatusMapValue (New default_Options) ''{limit:1}:S''
            \<lparr>Index = 1, Expire_status = 200000000\<rparr>) = Count (New default_Options)"
proof -
  let ?calls = "[(0, ''1'', [100, 100]), (0, ''2'', [100, 100, 50, 200]), (5, ''1'', [100, 100])]
    :: (time \<times> string \<times> int32 list) list"
  have "\<forall>c \<in> set ?calls. even (length (snd (snd c))) \<and> length (snd (snd c)) < 2 ^ 31"
    by simp
  from Gets_from_New_returns [OF this, of default_Options]
  obtain rs l where run: "Gets (New default_Options) ?calls = Some (rs, l)"
    and noerr: "\<forall>r \<in> set rs. snd r = None" by blast
  note count = Count_is_number_of_identifiers [OF run noerr,
      of "New default_Options" "''{limit:1}:S''" "\<lparr>Index = 1, Expire_status = 200000000\<rparr>"]
  have "set (map (fst \<circ> snd) ?calls) = {''1'', ''2''}" by auto
  then have "card (set (map (fst \<circ> snd) ?calls)) = 2" by simp
  with count have "Count l = 2" by simp
  with run noerr count show ?thesis by blast
qed

end
